theory Spec2Isabelle
  imports Complex_Main "HOL-Library.Sublist"
begin

section \<open>Effects: a browser driven through explicit state\<close>

text \<open>
  The automation talks to a browser through Puppeteer. Every call of the driver may
  change the page and may throw, so a call is a function from the state of the browser
  (the world, of an arbitrary type \<open>'w\<close>) to a result and a new world. What the browser
  answers is not fixed here: the driver is a parameter, and a theorem about a function of
  the program holds for every driver, that is for every behaviour of the page.

  A JavaScript exception is a value: \<open>Inl (Error msg)\<close>. The program never inspects the
  class of an exception, only its message, so one constructor is enough.

  The observable actions of a run (driver calls, console lines, pauses) are recorded in
  order in a trace, next to the world. The event of a driver call carries its outcome:
  \<open>True\<close> when the call resolved and \<open>False\<close> when it threw, or, for a call that
  returns a truth value, \<open>Some\<close> of it and \<open>None\<close> when it threw.
\<close>

datatype error = Error string

type_synonym ms = real

datatype event =
    Console string
  | ConsoleAttempt string nat nat
  | Log string string
  | WaitFor string ms bool
  | Click string bool
  | Press string bool
  | Query string "bool option"
  | HandleClick string bool
  | Evaluate string "bool option"
  | WaitForFunction string ms bool
  | Sleep ms
  | Screenshot string bool
  | Call string string "bool option"
  | Snapshot string bool
  | PickRadio "nat option"
  | Listen string
  | PhaseResult string "bool option"

type_synonym 'w state = "'w \<times> event list"

type_synonym ('w, 'a) prog = "'w state \<Rightarrow> (error + 'a) \<times> 'w state"

definition ret :: "'a \<Rightarrow> ('w, 'a) prog" where
  "ret x = (\<lambda>s. (Inr x, s))"

definition throw :: "error \<Rightarrow> ('w, 'a) prog" where
  "throw e = (\<lambda>s. (Inl e, s))"

definition bnd :: "('w, 'a) prog \<Rightarrow> ('a \<Rightarrow> ('w, 'b) prog) \<Rightarrow> ('w, 'b) prog" where
  "bnd m f = (\<lambda>s. case m s of (Inl e, s') \<Rightarrow> (Inl e, s') | (Inr x, s') \<Rightarrow> f x s')"

definition seq :: "('w, 'a) prog \<Rightarrow> ('w, 'b) prog \<Rightarrow> ('w, 'b) prog" where
  "seq m n = bnd m (\<lambda>_. n)"

text \<open>\<open>try { m } catch (e) { h e }\<close>\<close>

definition try_catch :: "('w, 'a) prog \<Rightarrow> (error \<Rightarrow> ('w, 'a) prog) \<Rightarrow> ('w, 'a) prog" where
  "try_catch m h = (\<lambda>s. case m s of (Inl e, s') \<Rightarrow> h e s' | (Inr x, s') \<Rightarrow> (Inr x, s'))"

text \<open>
  \<open>try { m } finally { f }\<close>: \<open>f\<close> runs whatever \<open>m\<close> did; when \<open>f\<close> throws, its exception
  replaces the result of \<open>m\<close>.
\<close>

definition try_finally :: "('w, 'a) prog \<Rightarrow> ('w, unit) prog \<Rightarrow> ('w, 'a) prog" where
  "try_finally m f =
     (\<lambda>s. case m s of (r, s') \<Rightarrow>
        (case f s' of (Inl e, s'') \<Rightarrow> (Inl e, s'') | (Inr _, s'') \<Rightarrow> (r, s'')))"

text \<open>\<open>try { m } catch {}\<close>\<close>

definition swallow :: "('w, unit) prog \<Rightarrow> ('w, unit) prog" where
  "swallow m = try_catch m (\<lambda>_. ret ())"

definition emit :: "event \<Rightarrow> ('w, unit) prog" where
  "emit ev = (\<lambda>(w, t). (Inr (), (w, t @ [ev])))"

definition call :: "((error + 'a) \<Rightarrow> event) \<Rightarrow> ('w \<Rightarrow> (error + 'a) \<times> 'w) \<Rightarrow> ('w, 'a) prog" where
  "call ev f = (\<lambda>(w, t). case f w of (r, w') \<Rightarrow> (r, (w', t @ [ev r])))"

definition ok :: "error + 'a \<Rightarrow> bool" where
  "ok r = (case r of Inl _ \<Rightarrow> False | Inr _ \<Rightarrow> True)"

definition val :: "error + 'a \<Rightarrow> 'a option" where
  "val r = (case r of Inl _ \<Rightarrow> None | Inr x \<Rightarrow> Some x)"

text \<open>
  The numbers \<open>parseInt\<close> can give apart from \<open>NaN\<close>: a double with an integral value, or an
  infinity (a digit string too long for a double).
\<close>

datatype jsnum = Num int | PosInfinity | NegInfinity

fun neg :: "jsnum \<Rightarrow> jsnum" where
  "neg (Num k) = Num (- k)"
| "neg PosInfinity = NegInfinity"
| "neg NegInfinity = PosInfinity"

fun nonneg :: "jsnum \<Rightarrow> bool" where
  "nonneg (Num k) = (0 \<le> k)"
| "nonneg PosInfinity = True"
| "nonneg NegInfinity = False"

text \<open>
  What the in-page functions read. An in-page function runs in the browser on the
  document as it is at that moment; the driver hands the model the part of the document
  the function reads, and the function itself is modelled on it.

  For \<open>getCartCount\<close>: the element \<open>a[href*="/checkout"] span\<close> if there is one, with its
  \<open>innerText\<close> and \<open>textContent\<close>, and the \<open>innerText\<close> of every \<open>a\<close>, \<open>span\<close> and \<open>div\<close> in
  document order.
\<close>

record cart_dom =
  badge :: "(string \<times> string) option"
  nodes :: "string list"

text \<open>
  For the customization dialog: the radio inputs of the dialog in document order, each
  visible or not, checked or not.
\<close>

record radio =
  r_visible :: bool
  r_checked :: bool

text \<open>
  For the two waits on the OTP challenge. A text test by a regular expression is a truth
  value of the document: \<open>verify_otp_text\<close> is
  \<open>/verify otp|didn't receive otp/\<close> on the lower-cased text of the dialog, \<open>mentions_otp\<close> is
  \<open>/otp|verify/i\<close> on it; of an input, \<open>maxlength_1\<close> is \<open>maxlength === '1'\<close> and \<open>otp_hint\<close>
  is \<open>/one-time-code|otp/i\<close> on its \<open>autocomplete\<close> and \<open>aria-label\<close>. \<open>auth_dialog\<close> is the first
  element matching \<open>[role="dialog"], .modal, [class*="Modal"]\<close>; \<open>sign_in_form\<close> is
  \<open>#sign-in-form\<close>; \<open>lenskart_header\<close> is \<open>#header-wrapper, header[id="header"]\<close>; \<open>user_button\<close> is
  \<open>button[aria-label*="User account menu" i]\<close>; \<open>sign_in_node\<close> says that some \<open>a\<close>, \<open>button\<close>,
  \<open>div\<close> or \<open>span\<close> has a text matching \<open>/\bsign\s*in\b/i\<close>; \<open>signed_in_header\<close> is
  \<open>/account|profile|logout|sign out|my orders/i\<close> on the text of the header.
\<close>

record otp_input =
  maxlength_1 :: bool
  otp_hint :: bool

record dialog =
  verify_otp_text :: bool
  mentions_otp :: bool
  inputs :: "otp_input list"

record auth_dom =
  auth_dialog :: "dialog option"
  sign_in_form :: bool
  lenskart_header :: bool
  user_button :: bool
  sign_in_node :: bool
  signed_in_header :: bool

text \<open>
  The driver: the part of Puppeteer's \<open>Page\<close> and \<open>Browser\<close> the program uses.
  \<^item> \<open>drv_waitForSelector sel timeout\<close>: \<open>page.waitForSelector(sel, {timeout, visible: true})\<close>,
    resolves or throws;
  \<^item> \<open>drv_click sel\<close>: \<open>page.click(sel)\<close>;
  \<^item> \<open>drv_press key\<close>: \<open>page.keyboard.press(key)\<close>;
  \<^item> \<open>drv_query sel\<close>: \<open>page.$(sel)\<close>, \<open>True\<close> for an element handle, \<open>False\<close> for null;
  \<^item> \<open>drv_handle_click sel\<close>: \<open>click()\<close> on the handle obtained for \<open>sel\<close>;
  \<^item> \<open>drv_evaluate name\<close>: \<open>page.evaluate\<close> or \<open>page.evaluateHandle\<close> of the in-page
    function known here as \<open>name\<close>, whose result is read as a truth value (a handle
    that is an element counts as \<open>True\<close>);
  \<^item> \<open>drv_waitForFunction name timeout\<close>: \<open>page.waitForFunction(f, {timeout})\<close>;
  \<^item> \<open>drv_sleep t\<close>: the page goes on for \<open>t\<close> milliseconds (\<open>setTimeout\<close>);
  \<^item> \<open>drv_screenshot path\<close>: \<open>page.screenshot\<close>;
  \<^item> \<open>drv_call api arg\<close>: any other call of the driver (\<open>page.type\<close>, the mouse,
    \<open>page.focus\<close>, ...), named by its method and its first argument, with its result
    read as a truth value;
  \<^item> \<open>drv_cart_dom\<close>, \<open>drv_radios\<close>: the document as \<open>page.evaluate\<close> finds it for
    \<open>getCartCount\<close> and for the choice of a radio (\<open>None\<close>: no dialog), or the failure of
    the evaluation; \<open>drv_radio_click i\<close>: the effect on the page of the click on radio \<open>i\<close>;
  \<^item> \<open>drv_meta\<close>: the in-page function on the Continue button of the dialog: whether the
    button is there, and whether its label gives the step numbers;
  \<^item> \<open>drv_poll timeout\<close>: the documents \<open>page.waitForFunction\<close> would see at its
    successive polls before \<open>timeout\<close> expires; \<open>drv_settle k\<close>: the page after \<open>k\<close> polls;
  \<^item> \<open>drv_target_created\<close>: a \<open>targetcreated\<close> event of the browser has been delivered to
    the listener; \<open>drv_idle\<close>: one more turn of the event loop;
  \<^item> \<open>drv_double k\<close>: the number the browser's \<open>parseInt\<close> gives for a run of decimal
    digits whose value is \<open>k\<close>: \<open>k\<close> itself while a double holds it exactly, beyond that the
    double the browser rounds to, or an infinity.
\<close>

record 'w driver =
  drv_waitForSelector :: "string \<Rightarrow> ms \<Rightarrow> 'w \<Rightarrow> (error + unit) \<times> 'w"
  drv_click :: "string \<Rightarrow> 'w \<Rightarrow> (error + unit) \<times> 'w"
  drv_press :: "string \<Rightarrow> 'w \<Rightarrow> (error + unit) \<times> 'w"
  drv_query :: "string \<Rightarrow> 'w \<Rightarrow> (error + bool) \<times> 'w"
  drv_handle_click :: "string \<Rightarrow> 'w \<Rightarrow> (error + unit) \<times> 'w"
  drv_evaluate :: "string \<Rightarrow> 'w \<Rightarrow> (error + bool) \<times> 'w"
  drv_waitForFunction :: "string \<Rightarrow> ms \<Rightarrow> 'w \<Rightarrow> (error + unit) \<times> 'w"
  drv_sleep :: "ms \<Rightarrow> 'w \<Rightarrow> 'w"
  drv_screenshot :: "string \<Rightarrow> 'w \<Rightarrow> (error + unit) \<times> 'w"
  drv_call :: "string \<Rightarrow> string \<Rightarrow> 'w \<Rightarrow> (error + bool) \<times> 'w"
  drv_cart_dom :: "'w \<Rightarrow> (error + cart_dom) \<times> 'w"
  drv_radios :: "'w \<Rightarrow> (error + radio list option) \<times> 'w"
  drv_radio_click :: "nat \<Rightarrow> 'w \<Rightarrow> 'w"
  drv_meta :: "'w \<Rightarrow> (error + bool \<times> bool) \<times> 'w"
  drv_poll :: "ms \<Rightarrow> 'w \<Rightarrow> auth_dom list"
  drv_settle :: "nat \<Rightarrow> 'w \<Rightarrow> 'w"
  drv_target_created :: "'w \<Rightarrow> bool"
  drv_idle :: "'w \<Rightarrow> 'w"
  drv_double :: "int \<Rightarrow> jsnum"

definition page_waitForSelector :: "'w driver \<Rightarrow> string \<Rightarrow> ms \<Rightarrow> ('w, unit) prog" where
  "page_waitForSelector d sel timeout = call (\<lambda>r. WaitFor sel timeout (ok r)) (drv_waitForSelector d sel timeout)"

definition page_click :: "'w driver \<Rightarrow> string \<Rightarrow> ('w, unit) prog" where
  "page_click d sel = call (\<lambda>r. Click sel (ok r)) (drv_click d sel)"

definition keyboard_press :: "'w driver \<Rightarrow> string \<Rightarrow> ('w, unit) prog" where
  "keyboard_press d key = call (\<lambda>r. Press key (ok r)) (drv_press d key)"

definition page_query :: "'w driver \<Rightarrow> string \<Rightarrow> ('w, bool) prog" where
  "page_query d sel = call (\<lambda>r. Query sel (val r)) (drv_query d sel)"

definition handle_click :: "'w driver \<Rightarrow> string \<Rightarrow> ('w, unit) prog" where
  "handle_click d sel = call (\<lambda>r. HandleClick sel (ok r)) (drv_handle_click d sel)"

definition page_evaluate :: "'w driver \<Rightarrow> string \<Rightarrow> ('w, bool) prog" where
  "page_evaluate d name = call (\<lambda>r. Evaluate name (val r)) (drv_evaluate d name)"

definition page_waitForFunction :: "'w driver \<Rightarrow> string \<Rightarrow> ms \<Rightarrow> ('w, unit) prog" where
  "page_waitForFunction d name timeout =
     call (\<lambda>r. WaitForFunction name timeout (ok r)) (drv_waitForFunction d name timeout)"

definition page_call :: "'w driver \<Rightarrow> string \<Rightarrow> string \<Rightarrow> ('w, bool) prog" where
  "page_call d api arg = call (\<lambda>r. Call api arg (val r)) (drv_call d api arg)"

definition console :: "string \<Rightarrow> ('w, unit) prog" where
  "console line = emit (Console line)"

section \<open>utils.js\<close>

text \<open>\<open>wait(ms)\<close>: a timer; it cannot throw.\<close>

definition wait :: "'w driver \<Rightarrow> ms \<Rightarrow> ('w, unit) prog" where
  "wait d t = call (\<lambda>r. Sleep t) (\<lambda>w. (Inr (), drv_sleep d t w))"

text \<open>\<open>log(message, type)\<close>: one console line.\<close>

definition utils_log :: "string \<Rightarrow> string \<Rightarrow> ('w, unit) prog" where
  "utils_log message type = emit (Log type message)"

text \<open>\<open>screenshot(name)\<close> catches the failure of the capture and returns null.\<close>

definition screenshot :: "'w driver \<Rightarrow> string \<Rightarrow> ('w, unit) prog" where
  "screenshot d name =
     try_catch (seq (call (\<lambda>r. Screenshot name (ok r)) (drv_screenshot d name))
                    (console ''Screenshot saved''))
               (\<lambda>error. console ''Failed to take screenshot'')"

fun join :: "string list \<Rightarrow> string" where
  "join [] = []"
| "join [x] = x"
| "join (x # y # ys) = x @ '', '' @ join (y # ys)"

text \<open>
  \<open>waitForSelector(selectors, timeout)\<close>: the \<open>for ... of\<close> loop over the selectors, each
  in its own \<open>try\<close>; the first that resolves is returned, and the end of the loop throws.
  \<open>sels\<close> is the whole array (for the message), the second list what is left of the loop.
\<close>

fun waitForSelector_loop :: "'w driver \<Rightarrow> string list \<Rightarrow> string list \<Rightarrow> ms \<Rightarrow> ('w, string) prog" where
  "waitForSelector_loop d sels [] timeout =
     throw (Error (''None of the selectors found: '' @ join sels))"
| "waitForSelector_loop d sels (selector # rest) timeout =
     bnd (try_catch
            (seq (console (''Waiting for selector: '' @ selector))
            (seq (page_waitForSelector d selector timeout)
            (seq (console (''Found selector: '' @ selector))
                 (ret True))))
            (\<lambda>error. seq (console (''Selector not found: '' @ selector)) (ret False)))
         (\<lambda>found. if found then ret selector
                   else waitForSelector_loop d sels rest timeout)"

definition waitForSelector :: "'w driver \<Rightarrow> string list \<Rightarrow> ms \<Rightarrow> ('w, string) prog" where
  "waitForSelector d selectors timeout = waitForSelector_loop d selectors selectors timeout"

text \<open>
  \<open>clickElement(selectors, {timeout, retries})\<close>. \<open>click_pass\<close> is the inner loop, one
  pass over the selectors at a given value of \<open>attempt\<close>: \<open>True\<close> when the body has
  executed \<open>return true\<close>, \<open>False\<close> when the loop has ended. Each wait is given
  \<open>timeout / retries\<close>. \<open>click_attempts\<close> is the outer loop from a value of \<open>attempt\<close>.
\<close>

fun click_pass :: "'w driver \<Rightarrow> string list \<Rightarrow> nat \<Rightarrow> nat \<Rightarrow> ms \<Rightarrow> ('w, bool) prog" where
  "click_pass d [] attempt retries timeout = ret False"
| "click_pass d (selector # rest) attempt retries timeout =
     bnd (try_catch
            (seq (emit (ConsoleAttempt selector attempt retries))
            (seq (page_waitForSelector d selector (timeout / real retries))
            (seq (page_click d selector)
            (seq (console (''Clicked: '' @ selector))
            (seq (wait d 500)
                 (ret True))))))
            (\<lambda>error. case error of Error message \<Rightarrow>
               seq (console (''Failed to click '' @ selector @ '': '' @ message)) (ret False)))
         (\<lambda>clicked. if clicked then ret True
                     else click_pass d rest attempt retries timeout)"

function click_attempts :: "'w driver \<Rightarrow> string list \<Rightarrow> nat \<Rightarrow> nat \<Rightarrow> ms \<Rightarrow> ('w, bool) prog" where
  "click_attempts d sels attempt retries timeout =
     (if attempt \<le> retries then
        bnd (click_pass d sels attempt retries timeout)
            (\<lambda>clicked. if clicked then ret True
               else seq (if attempt < retries then wait d 1000 else ret ())
                        (click_attempts d sels (attempt + 1) retries timeout))
      else seq (console ''Failed to click any selector'') (ret False))"
  by pat_completeness auto
termination
  by (relation "measure (\<lambda>(d, sels, attempt, retries, timeout). Suc retries - attempt)") auto

declare click_attempts.simps [simp del]

definition clickElement :: "'w driver \<Rightarrow> string list \<Rightarrow> ms \<Rightarrow> nat \<Rightarrow> ('w, bool) prog" where
  "clickElement d selectors timeout retries = click_attempts d selectors 1 retries timeout"

text \<open>The defaults of \<open>clickElement\<close>: \<open>timeout = 10000\<close>, \<open>retries = 3\<close>.\<close>

definition clickElement_default :: "'w driver \<Rightarrow> string list \<Rightarrow> ('w, bool) prog" where
  "clickElement_default d selectors = clickElement d selectors 10000 3"

text \<open>\<open>elementExists(selector, timeout)\<close>\<close>

definition elementExists :: "'w driver \<Rightarrow> string \<Rightarrow> ms \<Rightarrow> ('w, bool) prog" where
  "elementExists d selector timeout =
     try_catch (seq (page_waitForSelector d selector timeout) (ret True)) (\<lambda>_. ret False)"

text \<open>
  \<open>closeModalIfPresent(selectors)\<close>: the loop returns at the first selector that exists
  (the result of the click is not read); after the loop, Escape.
\<close>

fun closeModalIfPresent :: "'w driver \<Rightarrow> string list \<Rightarrow> ('w, bool) prog" where
  "closeModalIfPresent d [] =
     try_catch (seq (keyboard_press d ''Escape'')
               (seq (wait d 500)
               (seq (console ''Pressed Escape to close modal'')
                    (ret True))))
               (\<lambda>_. ret False)"
| "closeModalIfPresent d (selector # rest) =
     bnd (elementExists d selector 2000)
         (\<lambda>exists. if exists then
              seq (console (''Closing modal with: '' @ selector))
             (seq (clickElement_default d [selector])
             (seq (wait d 1000)
                  (ret True)))
            else closeModalIfPresent d rest)"

section \<open>automation.js: \<open>getCartCount\<close>\<close>

text \<open>
  Strings are lists of 8-bit characters here; JavaScript's are UTF-16. The white space
  \<open>trim\<close> and \<open>parseInt\<close> skip is taken as the ASCII white space and the no-break space.

  \<open>digits_val ds\<close> is the value of the digit string \<open>ds\<close> as an integer of mathematics. It
  is not what the program computes: the program has the number \<open>double (digits_val ds)\<close>,
  where \<open>double\<close> is the conversion of the browser (\<open>drv_double\<close>).

  \<open>parseInt(s, 10)\<close>: leading white space, an optional sign, then the longest run of
  decimal digits; \<open>NaN\<close> (\<open>None\<close>) when there is no digit. \<open>cart_test False s\<close> is
  \<open>/\bcart\b/i.test(s)\<close>; \<open>first_digits s\<close> is what \<open>s.match(/(\d+)/)\<close> captures (empty: no
  match).
\<close>

definition is_space :: "char \<Rightarrow> bool" where
  "is_space c = (c \<in> set [CHR '' '', CHR 0x09, CHR 0x0A, CHR 0x0B, CHR 0x0C, CHR 0x0D, CHR 0xA0])"

definition trim :: "string \<Rightarrow> string" where
  "trim s = rev (dropWhile is_space (rev (dropWhile is_space s)))"

definition is_digit :: "char \<Rightarrow> bool" where
  "is_digit c = (c \<in> set ''0123456789'')"

definition is_word :: "char \<Rightarrow> bool" where
  "is_word c = (c \<in> set ''abcdefghijklmnopqrstuvwxyzABCDEFGHIJKLMNOPQRSTUVWXYZ0123456789_'')"

definition digit_val :: "char \<Rightarrow> int" where
  "digit_val c = int (of_char c) - 48"

definition digits_val :: "string \<Rightarrow> int" where
  "digits_val ds = foldl (\<lambda>acc c. acc * 10 + digit_val c) 0 ds"

definition parseInt :: "(int \<Rightarrow> jsnum) \<Rightarrow> string \<Rightarrow> jsnum option" where
  "parseInt double s =
     (let s1 = dropWhile is_space s;
          (negative, rest) = (case s1 of
                            [] \<Rightarrow> (False, [])
                          | c # cs \<Rightarrow> if c = CHR ''-'' then (True, cs)
                                      else if c = CHR ''+'' then (False, cs) else (False, s1));
          ds = takeWhile is_digit rest
      in if ds = [] then None
         else Some (if negative then neg (double (digits_val ds)) else double (digits_val ds)))"

definition starts_cart :: "string \<Rightarrow> bool" where
  "starts_cart s =
     (case s of
        c1 # c2 # c3 # c4 # rest \<Rightarrow>
          c1 \<in> set ''cC'' \<and> c2 \<in> set ''aA'' \<and> c3 \<in> set ''rR'' \<and> c4 \<in> set ''tT'' \<and>
          (case rest of [] \<Rightarrow> True | x # _ \<Rightarrow> \<not> is_word x)
      | _ \<Rightarrow> False)"

fun cart_test :: "bool \<Rightarrow> string \<Rightarrow> bool" where
  "cart_test prev_word [] = False"
| "cart_test prev_word (c # cs) =
     ((\<not> prev_word \<and> starts_cart (c # cs)) \<or> cart_test (is_word c) cs)"

definition first_digits :: "string \<Rightarrow> string" where
  "first_digits s = takeWhile is_digit (dropWhile (\<lambda>c. \<not> is_digit c) s)"

definition badge_text :: "cart_dom \<Rightarrow> string" where
  "badge_text doc =
     trim (case badge doc of None \<Rightarrow> []
           | Some (innerText, textContent) \<Rightarrow> if innerText \<noteq> [] then innerText else textContent)"

definition cart_script :: "(int \<Rightarrow> jsnum) \<Rightarrow> cart_dom \<Rightarrow> jsnum" where
  "cart_script double doc =
     (case parseInt double (badge_text doc) of
        Some n \<Rightarrow> n
      | None \<Rightarrow>
          (case find (cart_test False) (nodes doc) of
             Some node \<Rightarrow>
               if first_digits node \<noteq> [] then double (digits_val (first_digits node)) else Num 0
           | None \<Rightarrow> Num 0))"

text \<open>
  \<open>getCartCount()\<close>: the in-page function on the document, the check that its value is a
  number (it always is), and 0 when the evaluation throws.
\<close>

definition getCartCount :: "'w driver \<Rightarrow> ('w, jsnum) prog" where
  "getCartCount d =
     try_catch (bnd (call (\<lambda>r. Snapshot ''getCartCount'' (ok r)) (drv_cart_dom d))
                    (\<lambda>doc. ret (cart_script (drv_double d) doc)))
               (\<lambda>_. ret (Num 0))"

section \<open>automation.js: the configuration and \<open>run\<close>\<close>

text \<open>
  The entry of \<open>config.js\<close> for the site: the fields the program reads. \<open>selectors\<close> maps a
  logical name to its selector string (a name the site does not define gives what
  JavaScript makes of \<open>undefined\<close>; the driver decides what a call with it does).
\<close>

record config =
  siteName :: string
  baseUrl :: string
  requiresLocation :: bool
  hasCustomization :: bool
  selectors :: "string \<Rightarrow> string"
  pageLoad :: ms

text \<open>
  \<open>run\<close> calls the phase methods of the class. What a phase does to the browser and what
  it returns is left open here: a phase is, like a call of the driver, a function of the
  world that returns a boolean or throws. The event \<open>PhaseResult name v\<close> records what the
  call of the phase gave \<open>run\<close>: \<open>Some b\<close> for the boolean, \<open>None\<close> for an exception.
\<close>

record 'w phases =
  ph_signin :: "'w \<Rightarrow> (error + bool) \<times> 'w"
  ph_setLocation :: "'w \<Rightarrow> (error + bool) \<times> 'w"
  ph_search :: "string \<Rightarrow> 'w \<Rightarrow> (error + bool) \<times> 'w"
  ph_addToCart :: "'w \<Rightarrow> (error + bool) \<times> 'w"
  ph_openCartTopbar :: "'w \<Rightarrow> (error + bool) \<times> 'w"

definition phase :: "string \<Rightarrow> ('w \<Rightarrow> (error + bool) \<times> 'w) \<Rightarrow> ('w, bool) prog" where
  "phase name f = call (\<lambda>r. PhaseResult name (val r)) f"

text \<open>
  \<open>init()\<close>, in three parts: up to the assignment of \<open>this.browser\<close> (line 46), up to the
  assignment of \<open>this.utils\<close> (lines 48-49), and the rest (lines 52-64).
\<close>

definition init_browser :: "'w driver \<Rightarrow> ('w, bool) prog" where
  "init_browser d =
     seq (console ''Initializing automation'')
         (page_call d ''puppeteer.launch'' [])"

definition init_utils :: "'w driver \<Rightarrow> ('w, bool) prog" where
  "init_utils d =
     seq (page_call d ''browser.newPage'' [])
         (page_call d ''new Utils'' [])"

definition init_page :: "'w driver \<Rightarrow> config \<Rightarrow> ('w, unit) prog" where
  "init_page d cfg =
     seq (page_call d ''page.setUserAgent'' [])
    (seq (swallow (seq (page_call d ''page.setExtraHTTPHeaders'' []) (ret ())))
    (seq (utils_log (''Navigating to '' @ baseUrl cfg) ''step'')
    (seq (page_call d ''page.goto'' (baseUrl cfg))
    (seq (wait d (pageLoad cfg))
         (screenshot d ''01_homepage'')))))"

text \<open>The body of the \<open>try\<close> of \<open>run\<close> after \<open>init()\<close>: lines 1657-1687.\<close>

definition run_steps :: "'w driver \<Rightarrow> config \<Rightarrow> 'w phases \<Rightarrow> string \<Rightarrow> ('w, unit) prog" where
  "run_steps d cfg ph searchTerm =
     seq (utils_log ''Starting authentication flow...'' ''step'')
    (seq (phase ''signin'' (ph_signin ph))
    (seq (if requiresLocation cfg then seq (phase ''setLocation'' (ph_setLocation ph)) (ret ()) else ret ())
    (bnd (phase ''search'' (ph_search ph searchTerm))
      (\<lambda>searchSuccess.
         if \<not> searchSuccess then throw (Error ''Search failed'')
         else
    (bnd (phase ''addToCart'' (ph_addToCart ph))
      (\<lambda>cartSuccess.
         if \<not> cartSuccess then throw (Error ''Add to cart failed'')
         else
     seq (if siteName cfg \<noteq> ''lenskart''
          then seq (phase ''openCartTopbar'' (ph_openCartTopbar ph)) (ret ()) else ret ())
    (seq (utils_log ''Automation completed successfully!'' ''success'')
    (seq (utils_log (''Screenshots saved in: ./screenshots/'' @ siteName cfg) ''info'')
    (seq (utils_log ''Keeping browser open for 10 seconds...'' ''info'')
         (wait d 10000))))))))))"

text \<open>The \<open>catch\<close> of \<open>run\<close> logs, captures \<open>error_final\<close> and throws the error again.\<close>

definition run_catch :: "'w driver \<Rightarrow> error \<Rightarrow> ('w, unit) prog" where
  "run_catch d error =
     (case error of Error message \<Rightarrow>
        seq (utils_log (''Automation failed: '' @ message) ''error'')
       (seq (screenshot d ''error_final'')
            (throw error)))"

text \<open>The \<open>finally\<close> of \<open>run\<close>, when \<open>this.browser\<close> is set.\<close>

definition run_finally :: "'w driver \<Rightarrow> ('w, unit) prog" where
  "run_finally d =
     seq (page_call d ''browser.close'' [])
         (utils_log ''Browser closed'' ''info'')"

text \<open>
  \<open>run(searchTerm)\<close>. While \<open>this.browser\<close> is null the \<open>finally\<close> does nothing, and while
  \<open>this.utils\<close> is null the \<open>catch\<close> (and the \<open>finally\<close> after closing the browser) throws a
  \<open>TypeError\<close> at \<open>this.utils.log\<close>; once both are set the \<open>try\<close>, \<open>catch\<close> and \<open>finally\<close> are
  as written.
\<close>

definition run :: "'w driver \<Rightarrow> config \<Rightarrow> 'w phases \<Rightarrow> string \<Rightarrow> ('w, unit) prog" where
  "run d cfg ph searchTerm =
     bnd (try_catch (seq (init_browser d) (ret True)) (\<lambda>_. ret False))
       (\<lambda>browser.
          if \<not> browser then throw (Error ''TypeError: this.utils is null'')
          else
     bnd (try_catch (seq (init_utils d) (ret True)) (\<lambda>_. ret False))
       (\<lambda>utils.
          if \<not> utils
          then seq (page_call d ''browser.close'' []) (throw (Error ''TypeError: this.utils is null''))
          else try_finally
                 (try_catch (seq (init_page d cfg) (run_steps d cfg ph searchTerm)) (run_catch d))
                 (run_finally d)))"

section \<open>Observations on a trace\<close>

text \<open>The visibility waits of a trace, in order: selector, time allowed, outcome.\<close>

fun probes :: "event list \<Rightarrow> (string \<times> ms \<times> bool) list" where
  "probes [] = []"
| "probes (WaitFor sel timeout b # es) = (sel, timeout, b) # probes es"
| "probes (e # es) = probes es"

definition waits :: "event list \<Rightarrow> (string \<times> ms) list" where
  "waits t = map (\<lambda>(sel, timeout, b). (sel, timeout)) (probes t)"

text \<open>The lines \<open>Attempting to click: sel (attempt a/r)\<close>, in order.\<close>

fun attempts_logged :: "event list \<Rightarrow> (string \<times> nat \<times> nat) list" where
  "attempts_logged [] = []"
| "attempts_logged (ConsoleAttempt sel a r # es) = (sel, a, r) # attempts_logged es"
| "attempts_logged (e # es) = attempts_logged es"

text \<open>The clicks by selector that resolved, and the keys pressed with their outcomes.\<close>

fun clicked :: "event list \<Rightarrow> string list" where
  "clicked [] = []"
| "clicked (Click sel True # es) = sel # clicked es"
| "clicked (e # es) = clicked es"

fun pressed :: "event list \<Rightarrow> (string \<times> bool) list" where
  "pressed [] = []"
| "pressed (Press key b # es) = (key, b) # pressed es"
| "pressed (e # es) = pressed es"

text \<open>The events \<open>clickElement\<close> can add to a trace.\<close>

fun click_event :: "event \<Rightarrow> bool" where
  "click_event (ConsoleAttempt sel a r) = True"
| "click_event (WaitFor sel timeout b) = True"
| "click_event (Click sel b) = True"
| "click_event (Console line) = True"
| "click_event (Sleep t) = True"
| "click_event e = False"

text \<open>
  The order in which \<open>clickElement\<close> tries: pass \<open>attempt\<close>, then \<open>attempt + 1\<close>, ... up
  to \<open>retries\<close>, each pass over all selectors in list order.
\<close>

definition schedule_from :: "string list \<Rightarrow> nat \<Rightarrow> nat \<Rightarrow> (string \<times> nat \<times> nat) list" where
  "schedule_from sels attempt retries =
     concat (map (\<lambda>k. map (\<lambda>sel. (sel, k, retries)) sels) [attempt..<Suc retries])"

text \<open>What follows a click that resolved: its console line and the pause of 500 ms.\<close>

definition settled :: "string \<Rightarrow> event list" where
  "settled sel = [Click sel True, Console (''Clicked: '' @ sel), Sleep 500]"

text \<open>
  What a run of the click loops over the schedule \<open>sched\<close> leaves in the trace \<open>t\<close> when it
  returns \<open>b\<close>: the attempts logged are a prefix of the schedule; one visibility wait
  per attempt, each allowed \<open>timeout / retries\<close>; when \<open>b\<close> is true, the last attempt
  logged is the one whose click resolved, it is the only such click, and the trace ends
  right after it; when \<open>b\<close> is false the whole schedule was tried and no click resolved.
\<close>

definition click_outcome :: "ms \<Rightarrow> (string \<times> nat \<times> nat) list \<Rightarrow> bool \<Rightarrow> event list \<Rightarrow> bool" where
  "click_outcome timeout sched b t =
     (prefix (attempts_logged t) sched \<and>
      waits t = map (\<lambda>(sel, k, r). (sel, timeout / real r)) (attempts_logged t) \<and>
      (if b then attempts_logged t \<noteq> [] \<and>
                 clicked t = [fst (last (attempts_logged t))] \<and>
                 suffix (settled (fst (last (attempts_logged t)))) t
       else attempts_logged t = sched \<and> clicked t = []))"

text \<open>
  The events of a run of \<open>run\<close> that end it with an exception: a phase that threw, a
  search or an add-to-cart that returned false, and a call of the driver made by \<open>run\<close> or
  \<open>init\<close> that threw (the HTTP headers apart, whose failure is caught).
\<close>

fun is_fatal :: "event \<Rightarrow> bool" where
  "is_fatal (PhaseResult name None) = True"
| "is_fatal (PhaseResult name (Some b)) = (\<not> b \<and> (name = ''search'' \<or> name = ''addToCart''))"
| "is_fatal (Call api arg None) = (api \<noteq> ''page.setExtraHTTPHeaders'')"
| "is_fatal e = False"

definition fatal :: "event list \<Rightarrow> event list" where
  "fatal t = filter is_fatal t"


text \<open>The run is reported successful: the line \<open>Automation completed successfully!\<close>.\<close>

definition completed :: "event list \<Rightarrow> bool" where
  "completed t = (Log ''success'' ''Automation completed successfully!'' \<in> set t)"

text \<open>
  The phases called, in order, each with what its call gave; and the calls of the driver
  made by \<open>init\<close>, in order, each with whether it resolved (closing the browser is not
  one of them).
\<close>

fun phase_results :: "event list \<Rightarrow> (string \<times> bool option) list" where
  "phase_results [] = []"
| "phase_results (PhaseResult name v # es) = (name, v) # phase_results es"
| "phase_results (e # es) = phase_results es"

fun init_calls :: "event list \<Rightarrow> (string \<times> bool) list" where
  "init_calls [] = []"
| "init_calls (Call api arg v # es) =
     (if api = ''browser.close'' then init_calls es else (api, v \<noteq> None) # init_calls es)"
| "init_calls (e # es) = init_calls es"

text \<open>
  The calls of \<open>init\<close> are made in the order of \<open>init_apis\<close>, and the first that throws is the
  last, but for the HTTP headers, whose failure is caught. \<open>started\<close>: none of them ended
  \<open>init\<close>.
\<close>

definition init_apis :: "string list" where
  "init_apis = [''puppeteer.launch'', ''browser.newPage'', ''new Utils'', ''page.setUserAgent'',
                ''page.setExtraHTTPHeaders'', ''page.goto'']"

definition passed :: "string \<times> bool \<Rightarrow> bool" where
  "passed c = (snd c \<or> fst c = ''page.setExtraHTTPHeaders'')"


definition started :: "event list \<Rightarrow> bool" where
  "started t = list_all passed (init_calls t)"













text \<open>
  The clicks by selector of a trace with their outcomes, and the selectors whose
  visibility wait resolved, both in order.
\<close>

fun click_tries :: "event list \<Rightarrow> (string \<times> bool) list" where
  "click_tries [] = []"
| "click_tries (Click sel b # es) = (sel, b) # click_tries es"
| "click_tries (e # es) = click_tries es"

definition resolved_waits :: "event list \<Rightarrow> string list" where
  "resolved_waits t = map fst (filter (\<lambda>(sel, timeout, b). b) (probes t))"

text \<open>
  A click is tried exactly on the selectors whose visibility wait resolved, in that order.
  When the loops return \<open>b = True\<close>, the last visibility wait resolved and the last click
  tried is the click on that selector, and it resolved; when they return false, no click
  that was tried resolved.
\<close>

definition wait_then_click :: "bool \<Rightarrow> event list \<Rightarrow> bool" where
  "wait_then_click b t =
     (map fst (click_tries t) = resolved_waits t \<and>
      (if b then probes t \<noteq> [] \<and> snd (snd (last (probes t))) \<and>
                 click_tries t \<noteq> [] \<and> snd (last (click_tries t)) \<and>
                 fst (last (click_tries t)) = fst (last (probes t))
       else list_all (\<lambda>(sel, ok). \<not> ok) (click_tries t)))"

section \<open>Pages for the examples\<close>

text \<open>
  The page on which nothing works: every call throws, no document has anything, no
  target is ever created, and nothing changes; its \<open>parseInt\<close> is exact (the examples use
  small numbers only). The other pages change some of its answers.
\<close>

definition blank_page :: "'w driver" where
  "blank_page =
     \<lparr> drv_waitForSelector = (\<lambda>sel timeout w. (Inl (Error ''TimeoutError''), w)),
       drv_click = (\<lambda>sel w. (Inl (Error ''No node found''), w)),
       drv_press = (\<lambda>key w. (Inl (Error ''Target closed''), w)),
       drv_query = (\<lambda>sel w. (Inr False, w)),
       drv_handle_click = (\<lambda>sel w. (Inl (Error ''Node is detached''), w)),
       drv_evaluate = (\<lambda>name w. (Inl (Error ''Evaluation failed''), w)),
       drv_waitForFunction = (\<lambda>name timeout w. (Inl (Error ''TimeoutError''), w)),
       drv_sleep = (\<lambda>t w. w),
       drv_screenshot = (\<lambda>name w. (Inr (), w)),
       drv_call = (\<lambda>api arg w. (Inl (Error ''Protocol error''), w)),
       drv_cart_dom = (\<lambda>w. (Inl (Error ''Evaluation failed''), w)),
       drv_radios = (\<lambda>w. (Inr None, w)),
       drv_radio_click = (\<lambda>i w. w),
       drv_meta = (\<lambda>w. (Inr (False, False), w)),
       drv_poll = (\<lambda>timeout w. []),
       drv_settle = (\<lambda>k w. w),
       drv_target_created = (\<lambda>w. False),
       drv_idle = (\<lambda>w. w),
       drv_double = Num \<rparr>"

text \<open>
  A page that never changes: \<open>visible\<close> says which selectors resolve to a visible element,
  \<open>clickable\<close> which clicks resolve, \<open>keys\<close> which key presses resolve. Its world is
  \<open>unit\<close>.
\<close>

definition static_page :: "(string \<Rightarrow> bool) \<Rightarrow> (string \<Rightarrow> bool) \<Rightarrow> (string \<Rightarrow> bool) \<Rightarrow> unit driver" where
  "static_page visible clickable keys =
     blank_page
     \<lparr> drv_waitForSelector := (\<lambda>sel timeout w. (if visible sel then Inr () else Inl (Error ''TimeoutError''), w)),
       drv_click := (\<lambda>sel w. (if clickable sel then Inr () else Inl (Error ''No node found''), w)),
       drv_press := (\<lambda>key w. (if keys key then Inr () else Inl (Error ''Target closed''), w)),
       drv_query := (\<lambda>sel w. (Inr (visible sel), w)),
       drv_handle_click := (\<lambda>sel w. (if clickable sel then Inr () else Inl (Error ''Node is detached''), w)) \<rparr>"

text \<open>
  A page that needs time: its world counts the visibility waits made so far, and a wait
  resolves once \<open>n\<close> earlier waits have timed out. Clicks and keys always resolve.
\<close>

definition slow_page :: "nat \<Rightarrow> nat driver" where
  "slow_page n =
     blank_page
     \<lparr> drv_waitForSelector := (\<lambda>sel timeout w. (if n \<le> w then Inr () else Inl (Error ''TimeoutError''), Suc w)),
       drv_click := (\<lambda>sel w. (Inr (), w)),
       drv_press := (\<lambda>key w. (Inr (), w)),
       drv_query := (\<lambda>sel w. (Inr (n \<le> w), w)),
       drv_handle_click := (\<lambda>sel w. (Inr (), w)) \<rparr>"

text \<open>A page that shows the document \<open>doc\<close> to \<open>getCartCount\<close>, and never changes.\<close>

definition cart_page :: "cart_dom \<Rightarrow> unit driver" where
  "cart_page doc = blank_page \<lparr> drv_cart_dom := (\<lambda>w. (Inr doc, w)) \<rparr>"






section \<open>Reasoning about programs\<close>

text \<open>
  \<open>behaves m Q\<close>: from every state, \<open>m\<close> only extends the trace, and its result \<open>r\<close> and
  the events \<open>t'\<close> it adds satisfy \<open>Q r t'\<close>.
\<close>

definition behaves :: "('w, 'a) prog \<Rightarrow> ((error + 'a) \<Rightarrow> event list \<Rightarrow> bool) \<Rightarrow> bool" where
  "behaves m Q = (\<forall>w t. \<exists>r w' t'. m (w, t) = (r, (w', t @ t')) \<and> Q r t')"

lemma probes_append [simp]: "probes (xs @ ys) = probes xs @ probes ys"
  by (induction xs rule: probes.induct) auto

lemma attempts_logged_append [simp]: "attempts_logged (xs @ ys) = attempts_logged xs @ attempts_logged ys"
  by (induction xs rule: attempts_logged.induct) auto

lemma behaves_ret [simp]: "behaves (ret x) Q = Q (Inr x) []"
  by (auto simp: behaves_def ret_def)

lemma behaves_throw [simp]: "behaves (throw e) Q = Q (Inl e) []"
  by (auto simp: behaves_def throw_def)

lemma behaves_emit [simp]: "behaves (emit ev) Q = Q (Inr ()) [ev]"
  by (auto simp: behaves_def emit_def)

lemma behaves_call: "behaves (call ev f) Q = (\<forall>w. Q (fst (f w)) [ev (fst (f w))])"
proof
  assume h: "behaves (call ev f) Q"
  show "\<forall>w. Q (fst (f w)) [ev (fst (f w))]"
  proof
    fix w
    from h obtain r w' t' where "call ev f (w, []) = (r, (w', [] @ t'))" and "Q r t'"
      unfolding behaves_def by blast
    then show "Q (fst (f w)) [ev (fst (f w))]"
      by (auto simp: call_def split: prod.splits)
  qed
next
  assume "\<forall>w. Q (fst (f w)) [ev (fst (f w))]"
  then show "behaves (call ev f) Q"
    by (auto simp: behaves_def call_def split: prod.splits) (metis fst_conv)
qed

lemma behaves_bnd:
  "behaves m (\<lambda>r t1. case r of Inl e \<Rightarrow> Q (Inl e) t1
                       | Inr x \<Rightarrow> behaves (f x) (\<lambda>r t2. Q r (t1 @ t2))) \<Longrightarrow> behaves (bnd m f) Q"
  unfolding behaves_def bnd_def
  apply (intro allI)
  subgoal for w t
    apply (erule allE[of _ w], erule allE[of _ t])
    apply (elim exE conjE)
    subgoal for r w' t'
      apply (cases r)
       apply (auto split: sum.splits)[1]
      apply simp
      apply (erule allE[of _ w'], erule allE[of _ "t @ t'"])
      apply auto
      done
    done
  done

lemma behaves_seq:
  "behaves m (\<lambda>r t1. case r of Inl e \<Rightarrow> Q (Inl e) t1
                       | Inr x \<Rightarrow> behaves n (\<lambda>r t2. Q r (t1 @ t2))) \<Longrightarrow> behaves (seq m n) Q"
  unfolding seq_def by (rule behaves_bnd)


lemma behaves_mono: "behaves m P \<Longrightarrow> (\<And>r t. P r t \<Longrightarrow> Q r t) \<Longrightarrow> behaves m Q"
  unfolding behaves_def by meson

lemmas prim_defs = swallow_def console_def wait_def utils_log_def page_waitForSelector_def
  page_click_def keyboard_press_def page_query_def handle_click_def page_evaluate_def
  page_waitForFunction_def

lemma behaves_bnd':
  "behaves m P \<Longrightarrow>
   (\<And>r t1. P r t1 \<Longrightarrow> (case r of Inl e \<Rightarrow> Q (Inl e) t1
                       | Inr x \<Rightarrow> behaves (f x) (\<lambda>r t2. Q r (t1 @ t2)))) \<Longrightarrow> behaves (bnd m f) Q"
  by (rule behaves_bnd) (erule behaves_mono)

lemma behaves_seq':
  "behaves m P \<Longrightarrow>
   (\<And>r t1. P r t1 \<Longrightarrow> (case r of Inl e \<Rightarrow> Q (Inl e) t1
                       | Inr x \<Rightarrow> behaves n (\<lambda>r t2. Q r (t1 @ t2)))) \<Longrightarrow> behaves (seq m n) Q"
  by (rule behaves_seq) (erule behaves_mono)

lemma clicked_append [simp]: "clicked (xs @ ys) = clicked xs @ clicked ys"
  by (induction xs rule: clicked.induct) auto

lemma waits_append [simp]: "waits (xs @ ys) = waits xs @ waits ys"
  by (simp add: waits_def)

lemma pressed_append [simp]: "pressed (xs @ ys) = pressed xs @ pressed ys"
  by (induction xs rule: pressed.induct) auto

lemmas monad_defs = ret_def throw_def bnd_def seq_def try_catch_def emit_def call_def ok_def val_def


subsection \<open>utils.js\<close>

lemma probe_step:
  "behaves (try_catch
            (seq (console A)
            (seq (page_waitForSelector d a timeout)
            (seq (console B)
                 (ret True))))
            (\<lambda>error. seq (console C) (ret False)))
     (\<lambda>r t'. case r of Inl _ \<Rightarrow> False | Inr b \<Rightarrow> probes t' = [(a, timeout, b)])"
  unfolding behaves_def
  by (auto simp: prim_defs monad_defs split: prod.splits sum.splits)

lemma waitForSelector_loop_spec:
  "behaves (waitForSelector_loop d all sels timeout) (\<lambda>r t'.
     (case r of
        Inr sel \<Rightarrow> (\<exists>pre post. sels = pre @ sel # post \<and>
                     probes t' = map (\<lambda>s. (s, timeout, False)) pre @ [(sel, timeout, True)])
      | Inl e \<Rightarrow> e = Error (''None of the selectors found: '' @ join all) \<and> probes t' = map (\<lambda>s. (s, timeout, False)) sels))"
proof (induction sels)
  case Nil
  then show ?case by simp
next
  case (Cons a sels)
  have step: "behaves (if b then ret a else waitForSelector_loop d all sels timeout)
     (\<lambda>r t2. case r of
        Inr sel \<Rightarrow> (\<exists>pre post. a # sels = pre @ sel # post \<and>
                     probes (t1 @ t2) = map (\<lambda>s. (s, timeout, False)) pre @ [(sel, timeout, True)])
      | Inl e \<Rightarrow> e = Error (''None of the selectors found: '' @ join all) \<and>
           probes (t1 @ t2) = map (\<lambda>s. (s, timeout, False)) (a # sels))"
    if "probes t1 = [(a, timeout, b)]" for b t1
  proof (cases b)
    case True
    then show ?thesis using that by simp
  next
    case False
    then show ?thesis using that
      apply simp
      apply (rule behaves_mono[OF Cons.IH])
      apply (auto split: sum.splits)
      apply (metis append_Cons list.simps(9))
      done
  qed
  show ?case
    apply (simp del: append.simps)
    apply (rule behaves_bnd'[OF probe_step])
    subgoal for r t1
      by (cases r) (simp_all add: step del: append.simps)
    done
qed

lemma click_outcome_nil: "click_outcome timeout [] False []"
  by (simp add: click_outcome_def waits_def)

lemma click_outcome_sleep: "click_outcome timeout [] False [Sleep x]"
  by (simp add: click_outcome_def waits_def)

lemma click_outcome_console: "click_outcome timeout [] False [Console x]"
  by (simp add: click_outcome_def waits_def)

lemma click_outcome_append:
  "click_outcome timeout s1 False t1 \<Longrightarrow> click_outcome timeout s2 b t2 \<Longrightarrow>
   click_outcome timeout (s1 @ s2) b (t1 @ t2)"
  by (auto simp: click_outcome_def suffix_appendI)

lemma click_outcome_done:
  "click_outcome timeout s1 True t1 \<Longrightarrow> click_outcome timeout (s1 @ s2) True t1"
  by (auto simp: click_outcome_def)

lemma click_step:
  "behaves (try_catch
            (seq (emit (ConsoleAttempt sel a R))
            (seq (page_waitForSelector d sel tmo)
            (seq (page_click d sel)
            (seq (console (''Clicked: '' @ sel))
            (seq (wait d 500)
                 (ret True))))))
            (\<lambda>error. case error of Error message \<Rightarrow>
               seq (console (C message)) (ret False)))
     (\<lambda>r t'. case r of Inl _ \<Rightarrow> False
        | Inr b \<Rightarrow> attempts_logged t' = [(sel, a, R)] \<and> waits t' = [(sel, tmo)] \<and>
            (if b then clicked t' = [sel] \<and> suffix (settled sel) t' else clicked t' = []))"
  unfolding behaves_def
  by (auto simp: prim_defs monad_defs waits_def settled_def suffix_def split: prod.splits sum.splits error.splits)


lemma click_step_outcome:
  "behaves (try_catch
            (seq (emit (ConsoleAttempt sel a R))
            (seq (page_waitForSelector d sel (timeout / real R))
            (seq (page_click d sel)
            (seq (console (''Clicked: '' @ sel))
            (seq (wait d 500)
                 (ret True))))))
            (\<lambda>error. case error of Error message \<Rightarrow>
               seq (console (C message)) (ret False)))
     (\<lambda>r t'. case r of Inl _ \<Rightarrow> False
        | Inr b \<Rightarrow> click_outcome timeout [(sel, a, R)] b t')"
  by (rule behaves_mono[OF click_step]) (auto simp: click_outcome_def split: sum.splits)

lemma click_pass_spec:
  "behaves (click_pass d sels a R timeout)
     (\<lambda>r t'. case r of Inl _ \<Rightarrow> False
        | Inr b \<Rightarrow> click_outcome timeout (map (\<lambda>sel. (sel, a, R)) sels) b t')"
proof (induction sels)
  case Nil
  then show ?case by (simp add: click_outcome_nil)
next
  case (Cons sel sels)
  have rest: "behaves (if b then ret True else click_pass d sels a R timeout)
     (\<lambda>r t2. case r of Inl _ \<Rightarrow> False
        | Inr b' \<Rightarrow> click_outcome timeout (map (\<lambda>sel. (sel, a, R)) (sel # sels)) b' (t1 @ t2))"
    if h: "click_outcome timeout [(sel, a, R)] b t1" for b t1
  proof (cases b)
    case True
    then show ?thesis using click_outcome_done[of timeout "[(sel, a, R)]" t1] h by simp
  next
    case False
    show ?thesis using False
      apply simp
      apply (rule behaves_mono[OF Cons.IH])
      subgoal for r t2
        using click_outcome_append[of timeout "[(sel, a, R)]" t1 _ _ t2] h False
        by (auto split: sum.splits)
      done
  qed
  show ?case
    apply (simp del: append.simps)
    apply (rule behaves_bnd'[OF click_step_outcome])
    subgoal for r t1
      by (cases r) (simp_all add: rest del: append.simps)
    done
qed

lemma schedule_from_step:
  "attempt \<le> retries \<Longrightarrow>
   schedule_from sels attempt retries =
     map (\<lambda>sel. (sel, attempt, retries)) sels @ schedule_from sels (Suc attempt) retries"
  by (simp add: schedule_from_def upt_conv_Cons)

lemma schedule_from_end: "\<not> attempt \<le> retries \<Longrightarrow> schedule_from sels attempt retries = []"
  by (simp add: schedule_from_def)

lemma click_attempts_spec:
  "behaves (click_attempts d sels attempt retries timeout)
     (\<lambda>r t'. case r of Inl _ \<Rightarrow> False
        | Inr b \<Rightarrow> click_outcome timeout (schedule_from sels attempt retries) b t')"
proof (induction d sels attempt retries timeout rule: click_attempts.induct)
  case (1 d sels attempt retries timeout)
  show ?case
  proof (cases "attempt \<le> retries")
    case False
    then have e: "schedule_from sels attempt retries = []"
      by (rule schedule_from_end)
    show ?thesis using False
      apply (subst click_attempts.simps)
      apply (simp add: console_def)
      apply (rule behaves_seq)
      apply (simp add: click_outcome_console e)
      done
  next
    case True
    have pause: "behaves (if attempt < retries then wait d 1000 else ret ())
       (\<lambda>r t. case r of Inl _ \<Rightarrow> False | Inr _ \<Rightarrow> click_outcome timeout [] False t)"
      by (simp add: wait_def behaves_call click_outcome_sleep click_outcome_nil)
    have rest: "behaves (if b then ret True
               else seq (if attempt < retries then wait d 1000 else ret ())
                        (click_attempts d sels (attempt + 1) retries timeout))
     (\<lambda>r t2. case r of Inl _ \<Rightarrow> False
        | Inr b' \<Rightarrow> click_outcome timeout (schedule_from sels attempt retries) b' (t1 @ t2))"
      if h: "click_outcome timeout (map (\<lambda>sel. (sel, attempt, retries)) sels) b t1" for b t1
    proof (cases b)
      case True
      with h have h': "click_outcome timeout (map (\<lambda>sel. (sel, attempt, retries)) sels) True t1"
        by simp
      show ?thesis
        using click_outcome_done[OF h', of "schedule_from sels (Suc attempt) retries"]
          schedule_from_step[OF \<open>attempt \<le> retries\<close>, of sels] True
        by simp
    next
      case False
      with h have h': "click_outcome timeout (map (\<lambda>sel. (sel, attempt, retries)) sels) False t1"
        by simp
      show ?thesis using False
        apply (simp only: if_False)
        apply (rule behaves_seq'[OF pause])
        subgoal for r ta
          apply (cases r; simp)
          apply (rule behaves_mono[OF "1.IH"[OF \<open>attempt \<le> retries\<close>, of False, simplified]])
          subgoal for r2 t2
            apply (cases r2; simp)
            using click_outcome_append[OF click_outcome_append[OF h', of "[]" False ta], of "schedule_from sels (Suc attempt) retries" _ t2]
              schedule_from_step[OF \<open>attempt \<le> retries\<close>, of sels]
            by simp
          done
        done
    qed
    show ?thesis
      apply (subst click_attempts.simps)
      apply (simp only: True if_True)
      apply (rule behaves_bnd'[OF click_pass_spec])
      subgoal for r t1
        by (cases r) (simp_all add: rest del: append.simps)
      done
  qed
qed


lemma clickElement_spec:
  "behaves (clickElement d sels timeout retries)
     (\<lambda>r t'. case r of Inl _ \<Rightarrow> False
        | Inr b \<Rightarrow> click_outcome timeout (schedule_from sels 1 retries) b t')"
  unfolding clickElement_def by (rule click_attempts_spec)

lemma click_step_events:
  "behaves (try_catch
            (seq (emit (ConsoleAttempt sel a R))
            (seq (page_waitForSelector d sel tmo)
            (seq (page_click d sel)
            (seq (console (''Clicked: '' @ sel))
            (seq (wait d 500)
                 (ret True))))))
            (\<lambda>error. case error of Error message \<Rightarrow>
               seq (console (C message)) (ret False)))
     (\<lambda>r t'. case r of Inl _ \<Rightarrow> False | Inr b \<Rightarrow> list_all click_event t')"
  unfolding behaves_def
  by (auto simp: prim_defs monad_defs split: prod.splits sum.splits error.splits)

lemma click_pass_events:
  "behaves (click_pass d sels a R timeout)
     (\<lambda>r t'. case r of Inl _ \<Rightarrow> False | Inr b \<Rightarrow> list_all click_event t')"
proof (induction sels)
  case Nil
  then show ?case by simp
next
  case (Cons sel sels)
  show ?case
    apply (simp del: append.simps)
    apply (rule behaves_bnd'[OF click_step_events])
    subgoal for r t1
      apply (cases r; simp)
      apply (intro impI)
      apply (rule behaves_mono[OF Cons.IH])
      apply (auto split: sum.splits)
      done
    done
qed

lemma click_attempts_events:
  "behaves (click_attempts d sels attempt retries timeout)
     (\<lambda>r t'. case r of Inl _ \<Rightarrow> False | Inr b \<Rightarrow> list_all click_event t')"
proof (induction d sels attempt retries timeout rule: click_attempts.induct)
  case (1 d sels attempt retries timeout)
  show ?case
  proof (cases "attempt \<le> retries")
    case False
    then show ?thesis
      apply (subst click_attempts.simps)
      apply (simp add: console_def)
      apply (rule behaves_seq)
      apply simp
      done
  next
    case True
    have pause: "behaves (if attempt < retries then wait d 1000 else ret ())
       (\<lambda>r t. case r of Inl _ \<Rightarrow> False | Inr _ \<Rightarrow> list_all click_event t)"
      by (simp add: wait_def behaves_call)
    have rest: "behaves (if b then ret True
               else seq (if attempt < retries then wait d 1000 else ret ())
                        (click_attempts d sels (attempt + 1) retries timeout))
     (\<lambda>r t2. case r of Inl _ \<Rightarrow> False | Inr b' \<Rightarrow> list_all click_event (t1 @ t2))"
      if h: "list_all click_event t1" for b t1
    proof (cases b)
      case True
      then show ?thesis using h by simp
    next
      case False
      show ?thesis using False
        apply (simp only: if_False)
        apply (rule behaves_seq'[OF pause])
        subgoal for r ta
          apply (cases r; simp)
          apply (rule behaves_mono[OF "1.IH"[OF \<open>attempt \<le> retries\<close>, of False, simplified]])
          using h by (auto split: sum.splits)
        done
    qed
    show ?thesis
      apply (subst click_attempts.simps)
      apply (simp only: True if_True)
      apply (rule behaves_bnd'[OF click_pass_events])
      subgoal for r t1
        by (cases r) (simp_all add: rest del: append.simps)
      done
  qed
qed

lemma clickElement_events:
  "behaves (clickElement d sels timeout retries)
     (\<lambda>r t'. case r of Inl _ \<Rightarrow> False | Inr b \<Rightarrow> list_all click_event t')"
  unfolding clickElement_def by (rule click_attempts_events)

lemma click_event_pressed: "list_all click_event t \<Longrightarrow> pressed t = []"
  by (induction t rule: pressed.induct) auto

lemma elementExists_spec:
  "behaves (elementExists d selector timeout)
     (\<lambda>r t'. case r of Inl _ \<Rightarrow> False
        | Inr b \<Rightarrow> probes t' = [(selector, timeout, b)] \<and> pressed t' = [])"
  unfolding behaves_def elementExists_def
  by (auto simp: prim_defs monad_defs split: prod.splits sum.splits)

lemma escape_spec:
  "behaves (try_catch (seq (keyboard_press d ''Escape'')
               (seq (wait d 500)
               (seq (console ''Pressed Escape to close modal'')
                    (ret True))))
               (\<lambda>_. ret False))
     (\<lambda>r t'. case r of Inl _ \<Rightarrow> False
        | Inr b \<Rightarrow> probes t' = [] \<and> pressed t' = [(''Escape'', b)])"
  unfolding behaves_def
  by (auto simp: prim_defs monad_defs split: prod.splits sum.splits)

lemma closeModalIfPresent_spec:
  "behaves (closeModalIfPresent d sels)
     (\<lambda>r t'. case r of Inl _ \<Rightarrow> False
        | Inr b \<Rightarrow>
            (if \<exists>sel timeout. (sel, timeout, True) \<in> set (probes t')
             then b \<and> pressed t' = []
             else map fst (probes t') = sels \<and> pressed t' = [(''Escape'', b)]))"
proof (induction sels)
  case Nil
  show ?case
    apply simp
    apply (rule behaves_mono[OF escape_spec])
    apply (auto split: sum.splits)
    done
next
  case (Cons sel sels)
  have close: "behaves (seq (console (''Closing modal with: '' @ sel))
             (seq (clickElement_default d [sel])
             (seq (wait d 1000)
                  (ret True))))
      (\<lambda>r t'. case r of Inl _ \<Rightarrow> False | Inr b \<Rightarrow> b \<and> pressed t' = [])"
    apply (simp add: console_def clickElement_default_def clickElement_def)
    apply (rule behaves_seq)
    apply simp
    apply (rule behaves_seq'[OF click_attempts_events])
    subgoal for r t1
      apply (cases r; simp)
      apply (rule behaves_seq)
      apply (simp add: wait_def behaves_call click_event_pressed)
      done
    done
  have rest: "behaves (if b then seq (console (''Closing modal with: '' @ sel))
             (seq (clickElement_default d [sel])
             (seq (wait d 1000)
                  (ret True))) else closeModalIfPresent d sels)
     (\<lambda>r t2. case r of Inl _ \<Rightarrow> False
        | Inr b \<Rightarrow>
            (if \<exists>sel timeout. (sel, timeout, True) \<in> set (probes (t1 @ t2))
             then b \<and> pressed (t1 @ t2) = []
             else map fst (probes (t1 @ t2)) = sel # sels \<and> pressed (t1 @ t2) = [(''Escape'', b)]))"
    if h: "probes t1 = [(sel, 2000, b)]" "pressed t1 = []" for b t1
  proof (cases b)
    case True
    show ?thesis using True h
      apply (simp only: if_True)
      apply (rule behaves_mono[OF close])
      apply (auto split: sum.splits)
      done
  next
    case False
    show ?thesis using False h
      apply (simp only: if_False)
      apply (rule behaves_mono[OF Cons.IH])
      apply (auto split: sum.splits)
      done
  qed
  show ?case
    apply (simp del: append.simps split del: if_split)
    apply (rule behaves_bnd'[OF elementExists_spec])
    subgoal for r t1
      apply (cases r)
       apply simp
      apply (simp only: sum.case)
      apply (rule rest)
       apply simp_all
      done
    done
qed


lemma click_tries_append [simp]: "click_tries (xs @ ys) = click_tries xs @ click_tries ys"
  by (induction xs rule: click_tries.induct) auto

lemma resolved_waits_append [simp]: "resolved_waits (xs @ ys) = resolved_waits xs @ resolved_waits ys"
  by (simp add: resolved_waits_def)

lemma wait_then_click_append:
  "wait_then_click False t1 \<Longrightarrow> wait_then_click b t2 \<Longrightarrow> wait_then_click b (t1 @ t2)"
  by (auto simp: wait_then_click_def)

lemma click_step_tries:
  "behaves (try_catch
            (seq (emit (ConsoleAttempt sel a R))
            (seq (page_waitForSelector d sel tmo)
            (seq (page_click d sel)
            (seq (console (''Clicked: '' @ sel))
            (seq (wait d 500)
                 (ret True))))))
            (\<lambda>error. case error of Error message \<Rightarrow>
               seq (console (C message)) (ret False)))
     (\<lambda>r t'. case r of Inl _ \<Rightarrow> False
        | Inr b \<Rightarrow> length (probes t') = 1 \<and> fst (hd (probes t')) = sel \<and>
            click_tries t' = (if snd (snd (hd (probes t'))) then [(sel, b)] else []) \<and>
            (if b then snd (snd (hd (probes t'))) else True))"
  unfolding behaves_def
  by (auto simp: prim_defs monad_defs split: prod.splits sum.splits error.splits)

lemma click_step_waits:
  "behaves (try_catch
            (seq (emit (ConsoleAttempt sel a R))
            (seq (page_waitForSelector d sel tmo)
            (seq (page_click d sel)
            (seq (console (''Clicked: '' @ sel))
            (seq (wait d 500)
                 (ret True))))))
            (\<lambda>error. case error of Error message \<Rightarrow>
               seq (console (C message)) (ret False)))
     (\<lambda>r t'. case r of Inl _ \<Rightarrow> False | Inr b \<Rightarrow> wait_then_click b t')"
  apply (rule behaves_mono[OF click_step_tries])
  subgoal for r t
    apply (cases r; simp)
    apply (cases "probes t"; simp)
    apply (auto simp: wait_then_click_def resolved_waits_def split: if_splits)
    done
  done

lemma click_pass_waits:
  "behaves (click_pass d sels a R timeout)
     (\<lambda>r t'. case r of Inl _ \<Rightarrow> False | Inr b \<Rightarrow> wait_then_click b t')"
proof (induction sels)
  case Nil
  then show ?case by (simp add: wait_then_click_def resolved_waits_def)
next
  case (Cons sel sels)
  have rest: "behaves (if b then ret True else click_pass d sels a R timeout)
     (\<lambda>r t2. case r of Inl _ \<Rightarrow> False | Inr b' \<Rightarrow> wait_then_click b' (t1 @ t2))"
    if h: "wait_then_click b t1" for b t1
  proof (cases b)
    case True
    then show ?thesis using h by simp
  next
    case False
    show ?thesis using False
      apply (simp only: if_False)
      apply (rule behaves_mono[OF Cons.IH])
      subgoal for r t2
        using wait_then_click_append[of t1 _ t2] h False
        by (auto split: sum.splits)
      done
  qed
  show ?case
    apply (simp del: append.simps)
    apply (rule behaves_bnd'[OF click_step_waits])
    subgoal for r t1
      by (cases r) (simp_all add: rest del: append.simps)
    done
qed

lemma behaves_conj: "behaves m P \<Longrightarrow> behaves m Q \<Longrightarrow> behaves m (\<lambda>r t. P r t \<and> Q r t)"
  unfolding behaves_def
proof (intro allI)
  fix w t
  assume p: "\<forall>w t. \<exists>r w' t'. m (w, t) = (r, w', t @ t') \<and> P r t'"
    and q: "\<forall>w t. \<exists>r w' t'. m (w, t) = (r, w', t @ t') \<and> Q r t'"
  from p obtain r w' t' where a: "m (w, t) = (r, w', t @ t')" "P r t'" by blast
  from q obtain r2 w2 t2 where b: "m (w, t) = (r2, w2, t @ t2)" "Q r2 t2" by blast
  from a(1) b(1) have "r2 = r" "t2 = t'" by simp_all
  with a b show "\<exists>r w' t'. m (w, t) = (r, w', t @ t') \<and> P r t' \<and> Q r t'" by blast
qed

section \<open>The claims\<close>

lemmas eval_defs = prim_defs monad_defs blank_page_def static_page_def slow_page_def elementExists_def
  clickElement_def clickElement_default_def waitForSelector_def click_attempts.simps

text \<open>
  C10. \<open>closeModalIfPresent\<close> never throws. When no selector of the list resolved to a
  visible element, every selector was probed, Escape was pressed once, and the result is
  the outcome of that key press: true when the press resolved (although no modal was
  found), false when the press threw. When some selector resolved, the result is true
  and Escape is not pressed. So false is returned only when the press of Escape throws.
\<close>

theorem closeModalIfPresent_escape_fallback:
  "\<exists>b w' t'. closeModalIfPresent d sels (w, t) = (Inr b, (w', t @ t')) \<and>
     (if \<exists>sel timeout. (sel, timeout, True) \<in> set (probes t')
      then b \<and> pressed t' = []
      else map fst (probes t') = sels \<and> pressed t' = [(''Escape'', b)])"
proof -
  from closeModalIfPresent_spec[of d sels] obtain r w' t' where
    run: "closeModalIfPresent d sels (w, t) = (r, (w', t @ t'))" and
    post: "case r of Inl _ \<Rightarrow> False
        | Inr b \<Rightarrow>
            (if \<exists>sel timeout. (sel, timeout, True) \<in> set (probes t')
             then b \<and> pressed t' = []
             else map fst (probes t') = sels \<and> pressed t' = [(''Escape'', b)])"
    unfolding behaves_def by blast
  from post obtain b where "r = Inr b" by (cases r) auto
  with run post show ?thesis by auto
qed

text \<open>
  Three pages for C10: nothing matches and Escape resolves; nothing matches and Escape
  throws; the second selector matches.
\<close>

theorem closeModalIfPresent_escape_fallback_witness:
  "fst (closeModalIfPresent (static_page (\<lambda>_. False) (\<lambda>_. False) (\<lambda>_. True))
          [''button.close'', ''button.dismiss''] ((), [])) = Inr True \<and>
   fst (closeModalIfPresent (static_page (\<lambda>_. False) (\<lambda>_. False) (\<lambda>_. False))
          [''button.close'', ''button.dismiss''] ((), [])) = Inr False \<and>
   fst (closeModalIfPresent (static_page (\<lambda>sel. sel = ''button.dismiss'') (\<lambda>_. False) (\<lambda>_. False))
          [''button.close'', ''button.dismiss''] ((), [])) = Inr True"
  using closeModalIfPresent_escape_fallback
     [of "static_page (\<lambda>_. False) (\<lambda>_. False) (\<lambda>_. True)" "[''button.close'', ''button.dismiss'']" "()" "[]"]
  by (simp add: eval_defs)

text \<open>
  C6, as the code has it. \<open>waitForSelector\<close> probes the selectors in list order, each with
  its own visibility wait of the whole \<open>timeout\<close>; it returns the first selector whose
  wait resolves, having probed exactly the selectors before it (all timed out) and
  itself, and nothing after; when none resolves it throws, having probed all of them.
  The loop of \<open>clickElement\<close> over the selectors (one pass) probes in list order too, each
  selector with a wait of \<open>timeout / retries\<close>. It clicks exactly the selectors whose wait
  resolved, and it stops at the first selector whose wait and click both resolve: then
  it returns true (not the selector), the last wait and the last click are on that
  selector and both resolved, and the trace ends right after that click. When it returns
  false every selector was probed and no click that was tried resolved.
\<close>

theorem selector_fallback_order:
  "(\<exists>r w' t'. waitForSelector d sels timeout (w, t) = (r, (w', t @ t')) \<and>
      (case r of
         Inr sel \<Rightarrow> \<exists>pre post. sels = pre @ sel # post \<and>
            probes t' = map (\<lambda>s. (s, timeout, False)) pre @ [(sel, timeout, True)]
       | Inl e \<Rightarrow> e = Error (''None of the selectors found: '' @ join sels) \<and>
            probes t' = map (\<lambda>s. (s, timeout, False)) sels)) \<and>
   (\<exists>b w' t'. click_pass d sels attempt retries timeout (w, t) = (Inr b, (w', t @ t')) \<and>
      click_outcome timeout (map (\<lambda>sel. (sel, attempt, retries)) sels) b t' \<and>
      wait_then_click b t')"
proof
  from waitForSelector_loop_spec[of d sels sels timeout]
  show "\<exists>r w' t'. waitForSelector d sels timeout (w, t) = (r, (w', t @ t')) \<and>
      (case r of
         Inr sel \<Rightarrow> \<exists>pre post. sels = pre @ sel # post \<and>
            probes t' = map (\<lambda>s. (s, timeout, False)) pre @ [(sel, timeout, True)]
       | Inl e \<Rightarrow> e = Error (''None of the selectors found: '' @ join sels) \<and>
            probes t' = map (\<lambda>s. (s, timeout, False)) sels)"
    unfolding behaves_def waitForSelector_def by blast
next
  from behaves_conj[OF click_pass_spec[of d sels attempt retries timeout] click_pass_waits[of d sels attempt retries timeout]]
  obtain r w' t' where
    run: "click_pass d sels attempt retries timeout (w, t) = (r, (w', t @ t'))" and
    post: "case r of Inl _ \<Rightarrow> False
        | Inr b \<Rightarrow> click_outcome timeout (map (\<lambda>sel. (sel, attempt, retries)) sels) b t'" and
    post2: "case r of Inl _ \<Rightarrow> False | Inr b \<Rightarrow> wait_then_click b t'"
    unfolding behaves_def by blast
  from post obtain b where "r = Inr b" by (cases r) auto
  with run post post2 show "\<exists>b w' t'. click_pass d sels attempt retries timeout (w, t) = (Inr b, (w', t @ t')) \<and>
      click_outcome timeout (map (\<lambda>sel. (sel, attempt, retries)) sels) b t' \<and> wait_then_click b t'" by auto
qed

text \<open>
  Pages for C6: only the second of three selectors is visible; the second and third are
  visible and only the click on the third resolves; nothing is visible.
\<close>

theorem selector_fallback_order_witness:
  "fst (waitForSelector (static_page (\<lambda>sel. sel = ''#b'') (\<lambda>_. True) (\<lambda>_. True))
          [''#a'', ''#b'', ''#c''] 3000 ((), [])) = Inr ''#b'' \<and>
   probes (snd (snd (waitForSelector (static_page (\<lambda>sel. sel = ''#b'') (\<lambda>_. True) (\<lambda>_. True))
          [''#a'', ''#b'', ''#c''] 3000 ((), [])))) = [(''#a'', 3000, False), (''#b'', 3000, True)] \<and>
   fst (click_pass (static_page (\<lambda>sel. sel = ''#b'') (\<lambda>_. True) (\<lambda>_. True))
          [''#a'', ''#b'', ''#c''] 1 3 3000 ((), [])) = Inr True \<and>
   probes (snd (snd (click_pass (static_page (\<lambda>sel. sel = ''#b'') (\<lambda>_. True) (\<lambda>_. True))
          [''#a'', ''#b'', ''#c''] 1 3 3000 ((), [])))) = [(''#a'', 1000, False), (''#b'', 1000, True)] \<and>
   click_tries (snd (snd (click_pass (static_page (\<lambda>sel. sel = ''#b'') (\<lambda>_. True) (\<lambda>_. True))
          [''#a'', ''#b'', ''#c''] 1 3 3000 ((), [])))) = [(''#b'', True)] \<and>
   fst (click_pass (static_page (\<lambda>sel. sel \<noteq> ''#a'') (\<lambda>sel. sel = ''#c'') (\<lambda>_. True))
          [''#a'', ''#b'', ''#c''] 1 3 3000 ((), [])) = Inr True \<and>
   probes (snd (snd (click_pass (static_page (\<lambda>sel. sel \<noteq> ''#a'') (\<lambda>sel. sel = ''#c'') (\<lambda>_. True))
          [''#a'', ''#b'', ''#c''] 1 3 3000 ((), [])))) =
     [(''#a'', 1000, False), (''#b'', 1000, True), (''#c'', 1000, True)] \<and>
   click_tries (snd (snd (click_pass (static_page (\<lambda>sel. sel \<noteq> ''#a'') (\<lambda>sel. sel = ''#c'') (\<lambda>_. True))
          [''#a'', ''#b'', ''#c''] 1 3 3000 ((), [])))) = [(''#b'', False), (''#c'', True)] \<and>
   fst (click_pass (static_page (\<lambda>_. False) (\<lambda>_. True) (\<lambda>_. True))
          [''#a'', ''#b''] 1 3 3000 ((), [])) = Inr False \<and>
   click_tries (snd (snd (click_pass (static_page (\<lambda>_. False) (\<lambda>_. True) (\<lambda>_. True))
          [''#a'', ''#b''] 1 3 3000 ((), [])))) = []"
  using selector_fallback_order
     [of "static_page (\<lambda>sel. sel = ''#b'') (\<lambda>_. True) (\<lambda>_. True)" "[''#a'', ''#b'', ''#c'']" 3000 "()" "[]" 1 3]
  by (simp add: eval_defs)

text \<open>
  C6 as stated fails for \<open>clickElement\<close>: on a page where both selectors are visible and
  the click on the first throws, the first selector resolves to a visible element and
  the second is probed all the same; and the value returned is \<open>True\<close>, not a selector.
\<close>

theorem clickElement_probes_after_visible:
  "fst (clickElement (static_page (\<lambda>_. True) (\<lambda>sel. sel = ''#b'') (\<lambda>_. True))
          [''#a'', ''#b''] 10000 1 ((), [])) = Inr True \<and>
   probes (snd (snd (clickElement (static_page (\<lambda>_. True) (\<lambda>sel. sel = ''#b'') (\<lambda>_. True))
          [''#a'', ''#b''] 10000 1 ((), [])))) = [(''#a'', 10000, True), (''#b'', 10000, True)]"
  by (simp add: eval_defs)

text \<open>
  C3, as the code has it. \<open>clickElement\<close> with \<open>retries = R\<close> never throws. It tries the
  selectors pass by pass (the schedule has \<open>R * |S|\<close> entries), logging the pass number
  before each visibility wait, and each wait is allowed \<open>timeout / R\<close>. When it returns
  false, the whole schedule was tried (exactly \<open>R\<close> full passes) and no click resolved.
  When it returns true, the last attempt logged (selector, pass \<open>k\<close>, \<open>R\<close>) is the one
  whose click resolved, and the run ends right after that click.
\<close>

theorem clickElement_retry_accounting:
  "\<exists>b w' t'. clickElement d sels timeout retries (w, t) = (Inr b, (w', t @ t')) \<and>
     click_outcome timeout (schedule_from sels 1 retries) b t' \<and>
     length (schedule_from sels 1 retries) = retries * length sels"
proof -
  from clickElement_spec[of d sels timeout retries] obtain r w' t' where
    run: "clickElement d sels timeout retries (w, t) = (r, (w', t @ t'))" and
    post: "case r of Inl _ \<Rightarrow> False
        | Inr b \<Rightarrow> click_outcome timeout (schedule_from sels 1 retries) b t'"
    unfolding behaves_def by blast
  from post obtain b where "r = Inr b" by (cases r) auto
  moreover have "length (schedule_from sels 1 retries) = retries * length sels"
    by (simp add: schedule_from_def length_concat comp_def sum_list_triv)
  ultimately show ?thesis using run post by auto
qed

text \<open>
  A page where the first wait times out and the second resolves (success in pass 2 of 3),
  and a page where nothing is ever visible (three full passes over two selectors).
\<close>

theorem clickElement_retry_accounting_witness:
  "fst (clickElement (slow_page 1) [''#add''] 9000 3 (0, [])) = Inr True \<and>
   attempts_logged (snd (snd (clickElement (slow_page 1) [''#add''] 9000 3 (0, [])))) =
     [(''#add'', 1, 3), (''#add'', 2, 3)] \<and>
   waits (snd (snd (clickElement (slow_page 1) [''#add''] 9000 3 (0, [])))) =
     [(''#add'', 3000), (''#add'', 3000)] \<and>
   fst (clickElement (static_page (\<lambda>_. False) (\<lambda>_. True) (\<lambda>_. True)) [''#a'', ''#b''] 9000 3 ((), [])) = Inr False \<and>
   attempts_logged (snd (snd (clickElement (static_page (\<lambda>_. False) (\<lambda>_. True) (\<lambda>_. True)) [''#a'', ''#b''] 9000 3 ((), [])))) =
     [(''#a'', 1, 3), (''#b'', 1, 3), (''#a'', 2, 3), (''#b'', 2, 3), (''#a'', 3, 3), (''#b'', 3, 3)]"
  using clickElement_retry_accounting[of "slow_page 1" "[''#add'']" 9000 3 0 "[]"]
  by (simp add: eval_defs waits_def)

text \<open>
  C3 as stated fails on the budget: with two selectors, \<open>timeout = 10000\<close> and
  \<open>retries = 2\<close>, the four waits are allowed 5000 ms each, 20000 ms in all: the timeout is
  divided by the number of retries only, not by retries times selectors.
\<close>

theorem clickElement_budget_not_partitioned:
  "fst (clickElement (static_page (\<lambda>_. False) (\<lambda>_. True) (\<lambda>_. True)) [''#a'', ''#b''] 10000 2 ((), [])) = Inr False \<and>
   waits (snd (snd (clickElement (static_page (\<lambda>_. False) (\<lambda>_. True) (\<lambda>_. True)) [''#a'', ''#b''] 10000 2 ((), [])))) =
     [(''#a'', 5000), (''#b'', 5000), (''#a'', 5000), (''#b'', 5000)] \<and>
   sum_list (map snd (waits (snd (snd (clickElement (static_page (\<lambda>_. False) (\<lambda>_. True) (\<lambda>_. True)) [''#a'', ''#b''] 10000 2 ((), [])))))) = 20000"
  by (simp add: eval_defs waits_def)


subsection \<open>\<open>getCartCount\<close>\<close>

lemma find_first:
  "xs = pre @ node # post \<Longrightarrow> \<forall>x\<in>set pre. \<not> P x \<Longrightarrow> P node \<Longrightarrow> find P xs = Some node"
  by (induction pre arbitrary: xs) auto

lemma first_digits_run:
  assumes "node = a @ ds @ b" "\<forall>c\<in>set a. \<not> is_digit c" "ds \<noteq> []" "\<forall>c\<in>set ds. is_digit c"
    "b = [] \<or> \<not> is_digit (hd b)"
  shows "first_digits node = ds"
proof -
  from assms(3) obtain c cs where ds: "ds = c # cs" by (cases ds) auto
  with assms(4) have c: "is_digit c" by simp
  have "dropWhile (\<lambda>c. \<not> is_digit c) node = ds @ b"
    unfolding assms(1) using assms(2) c ds by (simp add: dropWhile_append3)
  moreover have "takeWhile is_digit (ds @ b) = ds"
  proof (cases b)
    case Nil
    then show ?thesis using assms(4) by simp
  next
    case (Cons x xs)
    with assms(5) have "\<not> is_digit x" by simp
    then show ?thesis using assms(4) Cons by (simp add: takeWhile_append2)
  qed
  ultimately show ?thesis by (simp add: first_digits_def)
qed

lemma first_digits_none: "\<forall>c\<in>set node. \<not> is_digit c \<Longrightarrow> first_digits node = []"
  unfolding first_digits_def by (induction node) simp_all

lemma digit_val_nonneg: "is_digit c \<Longrightarrow> 0 \<le> digit_val c"
  by (auto simp: is_digit_def digit_val_def)

lemma foldl_digits_nonneg:
  "0 \<le> a \<Longrightarrow> \<forall>c\<in>set ds. is_digit c \<Longrightarrow> 0 \<le> foldl (\<lambda>acc c. acc * 10 + digit_val c) a ds"
  by (induction ds arbitrary: a) (auto simp: digit_val_nonneg)

lemma digits_val_nonneg: "\<forall>c\<in>set ds. is_digit c \<Longrightarrow> 0 \<le> digits_val ds"
  unfolding digits_val_def by (rule foldl_digits_nonneg) simp_all

lemma first_digits_nonneg: "0 \<le> digits_val (first_digits s)"
  unfolding first_digits_def by (rule digits_val_nonneg) (auto dest: set_takeWhileD)

lemma cart_script_badge: "parseInt double (badge_text doc) = Some k \<Longrightarrow> cart_script double doc = k"
  by (simp add: cart_script_def)

lemma cart_script_no_cart:
  "parseInt double (badge_text doc) = None \<Longrightarrow> \<forall>node\<in>set (nodes doc). \<not> cart_test False node \<Longrightarrow>
   cart_script double doc = Num 0"
  by (auto simp: cart_script_def find_Some_iff split: option.splits)

lemma cart_script_first_cart:
  "parseInt double (badge_text doc) = None \<Longrightarrow> nodes doc = pre @ node # post \<Longrightarrow>
   \<forall>x\<in>set pre. \<not> cart_test False x \<Longrightarrow> cart_test False node \<Longrightarrow>
   cart_script double doc =
     (if first_digits node \<noteq> [] then double (digits_val (first_digits node)) else Num 0)"
  using find_first[of "nodes doc" pre node post "cart_test False"]
  by (simp add: cart_script_def)

lemma cart_script_nonneg:
  "\<forall>k\<ge>0. nonneg (double k) \<Longrightarrow> (\<And>n. parseInt double (badge_text doc) = Some n \<Longrightarrow> nonneg n) \<Longrightarrow>
   nonneg (cart_script double doc)"
  by (auto simp: cart_script_def first_digits_nonneg split: option.splits)

lemma getCartCount_eq:
  "getCartCount d (w, t) =
     (Inr (case fst (drv_cart_dom d w) of Inl e \<Rightarrow> Num 0 | Inr doc \<Rightarrow> cart_script (drv_double d) doc),
      (snd (drv_cart_dom d w), t @ [Snapshot ''getCartCount'' (ok (fst (drv_cart_dom d w)))]))"
  by (auto simp: getCartCount_def monad_defs split: prod.splits sum.splits)

text \<open>
  C9, as the code has it. \<open>getCartCount\<close> never throws and returns a number, after one
  evaluation in the page: 0 when that evaluation throws. Otherwise:

  \<^item> when the text of the badge parses, the number it parses to;
  \<^item> when it does not (no badge, or no number at the start of its text): 0 if no element
    has the word "cart" in its text; if some has, only the first of them in document
    order counts, whatever the later ones hold: 0 if its text has no digit, otherwise
    the number of the first run of digits in its text;
  \<^item> the result is not negative unless the text of the badge parses to a negative number
    (the conversion of the browser keeps the sign).

  A number is the browser's double for the digits read, hence the integer they denote
  as long as a double holds it.
\<close>

theorem getCartCount_total:
  "\<exists>n. getCartCount d (w, t) =
          (Inr n, (snd (drv_cart_dom d w), t @ [Snapshot ''getCartCount'' (ok (fst (drv_cart_dom d w)))])) \<and>
        (case fst (drv_cart_dom d w) of
           Inl e \<Rightarrow> n = Num 0
         | Inr doc \<Rightarrow>
             (\<forall>k. parseInt (drv_double d) (badge_text doc) = Some k \<longrightarrow> n = k) \<and>
             (parseInt (drv_double d) (badge_text doc) = None \<longrightarrow>
                ((\<forall>node\<in>set (nodes doc). \<not> cart_test False node) \<longrightarrow> n = Num 0) \<and>
                (\<forall>pre node post.
                   nodes doc = pre @ node # post \<and> (\<forall>x\<in>set pre. \<not> cart_test False x) \<and>
                   cart_test False node \<longrightarrow>
                     ((\<forall>c\<in>set node. \<not> is_digit c) \<longrightarrow> n = Num 0) \<and>
                     (\<forall>a ds b. node = a @ ds @ b \<and> (\<forall>c\<in>set a. \<not> is_digit c) \<and> ds \<noteq> [] \<and>
                        (\<forall>c\<in>set ds. is_digit c) \<and> (b = [] \<or> \<not> is_digit (hd b)) \<longrightarrow>
                        n = drv_double d (digits_val ds)))) \<and>
             ((\<forall>k\<ge>0. nonneg (drv_double d k)) \<and>
              (\<forall>k. parseInt (drv_double d) (badge_text doc) = Some k \<longrightarrow> nonneg k) \<longrightarrow> nonneg n))"
proof (cases "fst (drv_cart_dom d w)")
  case (Inl e)
  then show ?thesis by (simp add: getCartCount_eq)
next
  case (Inr doc)
  let ?n = "cart_script (drv_double d) doc"
  have 1: "\<forall>k. parseInt (drv_double d) (badge_text doc) = Some k \<longrightarrow> ?n = k"
    by (simp add: cart_script_badge)
  have 2: "(\<forall>node\<in>set (nodes doc). \<not> cart_test False node) \<longrightarrow> ?n = Num 0"
    if "parseInt (drv_double d) (badge_text doc) = None"
    using that by (simp add: cart_script_no_cart)
  have 3: "((\<forall>c\<in>set node. \<not> is_digit c) \<longrightarrow> ?n = Num 0) \<and>
           (\<forall>a ds b. node = a @ ds @ b \<and> (\<forall>c\<in>set a. \<not> is_digit c) \<and> ds \<noteq> [] \<and>
                        (\<forall>c\<in>set ds. is_digit c) \<and> (b = [] \<or> \<not> is_digit (hd b)) \<longrightarrow>
                        ?n = drv_double d (digits_val ds))"
    if n: "parseInt (drv_double d) (badge_text doc) = None"
      and f: "nodes doc = pre @ node # post" "\<forall>x\<in>set pre. \<not> cart_test False x" "cart_test False node"
    for pre node post
  proof (intro conjI allI impI)
    assume "\<forall>c\<in>set node. \<not> is_digit c"
    then show "?n = Num 0"
      using cart_script_first_cart[OF n f] by (simp add: first_digits_none)
  next
    fix a ds b
    assume h: "node = a @ ds @ b \<and> (\<forall>c\<in>set a. \<not> is_digit c) \<and> ds \<noteq> [] \<and>
                        (\<forall>c\<in>set ds. is_digit c) \<and> (b = [] \<or> \<not> is_digit (hd b))"
    then have "first_digits node = ds" using first_digits_run[of node a ds b] by blast
    with h show "?n = drv_double d (digits_val ds)"
      using cart_script_first_cart[OF n f] by simp
  qed
  have 4: "(\<forall>k\<ge>0. nonneg (drv_double d k)) \<and>
              (\<forall>k. parseInt (drv_double d) (badge_text doc) = Some k \<longrightarrow> nonneg k) \<longrightarrow> nonneg ?n"
    using cart_script_nonneg[of "drv_double d" doc] by blast
  show ?thesis
    apply (rule exI[of _ ?n])
    apply (simp only: getCartCount_eq Inr sum.case)
    using 1 2 3 4 by blast
qed

lemmas string_defs = is_space_def trim_def is_digit_def is_word_def digit_val_def digits_val_def
  parseInt_def starts_cart_def first_digits_def badge_text_def cart_script_def

lemma cart_page_fields:
  "drv_cart_dom (cart_page doc) = (\<lambda>w. (Inr doc, w))"
  "drv_double (cart_page doc) = Num"
  "drv_cart_dom (blank_page :: unit driver) = (\<lambda>w. (Inl (Error ''Evaluation failed''), w))"
  by (simp_all add: cart_page_def blank_page_def)

text \<open>
  A badge reading 2; no badge and no cart text; a badge without a number, a first cart
  text without a digit and a second one with a digit; a first cart text whose first
  number is 0; a first cart text with two numbers; an evaluation that throws.
\<close>

theorem getCartCount_total_witness:
  "fst (getCartCount (cart_page \<lparr>badge = Some ('' 2 '', ''2''), nodes = [''Cart 7'']\<rparr>) ((), [])) = Inr (Num 2) \<and>
   fst (getCartCount (cart_page \<lparr>badge = None, nodes = [''Home'', ''Help'']\<rparr>) ((), [])) = Inr (Num 0) \<and>
   fst (getCartCount (cart_page \<lparr>badge = Some (''new'', ''new''), nodes = [''Cart'', ''Cart 5'']\<rparr>) ((), [])) = Inr (Num 0) \<and>
   fst (getCartCount (cart_page \<lparr>badge = None, nodes = [''Menu'', ''Cart 0 items'', ''Cart 5'']\<rparr>) ((), [])) = Inr (Num 0) \<and>
   fst (getCartCount (cart_page \<lparr>badge = None, nodes = [''Home'', ''Your cart: 4 of 9'', ''Cart 5'']\<rparr>) ((), [])) = Inr (Num 4) \<and>
   fst (getCartCount (blank_page :: unit driver) ((), [])) = Inr (Num 0) \<and>
   parseInt Num ''  -12abc'' = Some (Num (- 12)) \<and> parseInt Num ''+7'' = Some (Num 7) \<and>
   parseInt Num ''abc'' = None \<and> parseInt Num [] = None"
  using getCartCount_total[of "cart_page \<lparr>badge = None, nodes = [''Home'', ''Your cart: 4 of 9'', ''Cart 5'']\<rparr>" "()" "[]"]
  by (simp add: getCartCount_def cart_page_fields monad_defs string_defs)

text \<open>
  C9 as stated fails: with the badge absent, or its text unparsable, the fallback returns
  the first number of the first element whose text has the word "cart" (3, 12), not 0;
  and a badge whose text is \<open>-2\<close> gives \<open>- 2\<close>, since \<open>parseInt\<close> accepts a sign.
\<close>

theorem getCartCount_not_zero_not_nonneg:
  "fst (getCartCount (cart_page \<lparr>badge = None, nodes = [''Home'', ''Cart 3'']\<rparr>) ((), [])) = Inr (Num 3) \<and>
   fst (getCartCount (cart_page \<lparr>badge = Some (''new'', ''new''), nodes = [''Offers'', ''My cart (12)'']\<rparr>) ((), [])) = Inr (Num 12) \<and>
   fst (getCartCount (cart_page \<lparr>badge = Some (''-2'', ''-2''), nodes = []\<rparr>) ((), [])) = Inr (Num (- 2))"
  by (simp add: getCartCount_def cart_page_fields monad_defs string_defs)


subsection \<open>\<open>run\<close>\<close>

lemma fatal_append [simp]: "fatal (xs @ ys) = fatal xs @ fatal ys"
  by (simp add: fatal_def)

lemma phase_results_append [simp]: "phase_results (xs @ ys) = phase_results xs @ phase_results ys"
  by (induction xs rule: phase_results.induct) simp_all

lemma init_calls_append [simp]: "init_calls (xs @ ys) = init_calls xs @ init_calls ys"
  by (induction xs rule: init_calls.induct) simp_all

lemma completed_append [simp]: "completed (xs @ ys) = (completed xs \<or> completed ys)"
  by (auto simp: completed_def)

lemma started_append [simp]: "started (xs @ ys) = (started xs \<and> started ys)"
  by (simp add: started_def)

















lemma init_apis_split:
  "init_apis = [''puppeteer.launch''] @ [''browser.newPage'', ''new Utils''] @
               [''page.setUserAgent'', ''page.setExtraHTTPHeaders'', ''page.goto'']"
  by (simp add: init_apis_def)



















end
